theory Spec2Isabelle
  imports Complex_Main "HOL-Library.Word"
begin

section \<open>CmdMessenger: a shallow embedding of src/CmdMessenger.h\<close>

text \<open>
  The class \<open>CmdMessenger\<close> becomes the record \<open>cm\<close>; every method becomes a function
  that takes the object and returns it updated. A \<open>char\<close> of the source is a HOL
  \<open>char\<close> (one byte), \<open>uint8_t\<close> is \<open>8 word\<close>, a \<open>char *\<close> into \<open>commandBuffer\<close>
  is an index (\<open>None\<close> for the null pointer). Reads and writes outside an array and
  dereferences of the null pointer are undefined behaviour in C++; the model makes them
  values of type \<open>fault\<close>.
\<close>

subsection \<open>Faults and results\<close>

datatype fault = NullDeref | OutOfBounds | ScriptEnd

type_synonym 'a res = "fault + 'a"

definition bind_r :: "'a res \<Rightarrow> ('a \<Rightarrow> 'b res) \<Rightarrow> 'b res" where
  "bind_r m f = (case m of Inl e \<Rightarrow> Inl e | Inr x \<Rightarrow> f x)"

lemma bind_r_Inl [simp]: "bind_r (Inl e) f = Inl e"
  by (simp add: bind_r_def)

lemma bind_r_Inr [simp]: "bind_r (Inr x) f = f x"
  by (simp add: bind_r_def)

lemma bind_r_eq_Inr: "bind_r m f = Inr y \<longleftrightarrow> (\<exists>x. m = Inr x \<and> f x = Inr y)"
  by (cases m) simp_all

lemma bind_r_cong [fundef_cong]:
  "m = m' \<Longrightarrow> (\<And>x. m' = Inr x \<Longrightarrow> f x = f' x) \<Longrightarrow> bind_r m f = bind_r m' f'"
  by (cases m') simp_all

subsection \<open>Constants and characters\<close>

definition MESSENGERBUFFERSIZE :: nat where
  "MESSENGERBUFFERSIZE = 192"

definition MAXSTREAMBUFFERSIZE :: nat where
  "MAXSTREAMBUFFERSIZE = 512"

definition NUL :: char where
  "NUL = CHR 0x00"

text \<open>The message states of the anonymous enum.\<close>

datatype msg_state = kProccesingMessage | kEndOfMessage | kProcessingArguments

subsection \<open>The object\<close>

text \<open>
  The fields of the class in their order. \<open>streamBuffer\<close> and \<open>prevChar\<close> hold nothing
  between calls and are left out; \<open>last\<close> is called \<open>lastp\<close>. The last four fields are
  the collaborators: \<open>rx\<close> scripts the transport's input (\<open>Some c\<close> is a byte that is
  there, \<open>None\<close> a poll that finds nothing), \<open>tx\<close> collects what is printed, \<open>clock\<close>
  scripts the successive values of \<open>millis()\<close>, and \<open>dispatched\<close> records each call
  of the attached callback with the frame it was called for.
\<close>

record cm =
  startCommand :: bool
  pauseProcessing :: bool
  print_newlines :: bool
  dumped :: bool
  ArgOk :: bool
  lastCommandId :: "8 word"
  bufferIndex :: "8 word"
  bufferLength :: "8 word"
  bufferLastIndex :: "8 word"
  ArglastChar :: char
  CmdlastChar :: char
  commandBuffer :: "char list"
  messageState :: msg_state
  current :: "nat option"
  lastp :: "nat option"
  command_separator :: char
  field_separator :: char
  escape_character :: char
  rx :: "char option list"
  tx :: "char list"
  clock :: "32 word list"
  dispatched :: "char list list"

subsection \<open>Memory access\<close>

definition rd :: "char list \<Rightarrow> nat \<Rightarrow> char res" where
  "rd buf i = (if i < length buf then Inr (buf ! i) else Inl OutOfBounds)"

definition wr :: "char list \<Rightarrow> nat \<Rightarrow> char \<Rightarrow> char list res" where
  "wr buf i c = (if i < length buf then Inr (buf[i := c]) else Inl OutOfBounds)"

text \<open>The C string that starts at index \<open>i\<close> of a piece of memory.\<close>

definition cstr :: "char list \<Rightarrow> nat \<Rightarrow> char list" where
  "cstr buf i = takeWhile (\<lambda>c. c \<noteq> NUL) (drop i buf)"

subsection \<open>Escaping tools\<close>

text \<open>
  \<open>isEscaped(currChar, escapeChar, lastChar)\<close>: the cell \<open>*lastChar\<close> is passed in and
  returned. The special case compares with the member \<open>escape_character\<close>, the first
  test with the parameter.
\<close>

definition isEscaped :: "cm \<Rightarrow> char \<Rightarrow> char \<Rightarrow> char \<Rightarrow> bool \<times> char" where
  "isEscaped s currChar escapeChar lastChar =
     (let escaped = (lastChar = escapeChar);
          lastChar1 = currChar
      in if lastChar1 = escape_character s \<and> escaped then (escaped, NUL)
         else (escaped, lastChar1))"

text \<open>\<open>comms->print(c)\<close> and \<open>printEsc(char)\<close>.\<close>

definition comms_print :: "char list \<Rightarrow> cm \<Rightarrow> cm" where
  "comms_print cs s = s\<lparr>tx := tx s @ cs\<rparr>"

definition printEsc :: "char \<Rightarrow> cm \<Rightarrow> cm" where
  "printEsc c s =
     (let s1 = (if c = field_separator s \<or> c = command_separator s
                   \<or> c = escape_character s \<or> c = NUL
                then comms_print [escape_character s] s else s)
      in comms_print [c] s1)"

text \<open>
  \<open>printEsc(char *str)\<close>: the argument is the memory from \<open>str\<close> on; the loop stops
  at the first null byte and runs off the memory when there is none.
\<close>

fun printEsc_str :: "char list \<Rightarrow> cm \<Rightarrow> cm res" where
  "printEsc_str [] s = Inl OutOfBounds"
| "printEsc_str (c # cs) s = (if c \<noteq> NUL then printEsc_str cs (printEsc c s) else Inr s)"

text \<open>
  \<open>unescape(char *fromChar)\<close> on a piece of memory \<open>buf\<close>: \<open>from\<close> and \<open>to\<close> are
  the two pointers. After an escape character the next byte is copied whatever it is,
  the terminator included.
\<close>

fun pad_zero :: "char list \<Rightarrow> nat \<Rightarrow> nat \<Rightarrow> char list" where
  "pad_zero buf to 0 = buf"
| "pad_zero buf to (Suc n) = pad_zero (buf[to := NUL]) (Suc to) n"

function unescape_loop :: "char \<Rightarrow> char list \<Rightarrow> nat \<Rightarrow> nat \<Rightarrow> char list res" where
  "unescape_loop esc buf from to =
     (if from < length buf then
        (if buf ! from \<noteq> NUL then
           (let from1 = (if buf ! from = esc then from + 1 else from)
            in if from1 < length buf
               then bind_r (wr buf to (buf ! from1))
                      (\<lambda>buf1. unescape_loop esc buf1 (from1 + 1) (to + 1))
               else Inl OutOfBounds)
         else Inr (pad_zero buf to (from - to)))
      else Inl OutOfBounds)"
  by pat_completeness auto
termination
  by (relation "measure (\<lambda>(esc, buf, from, to). length buf - from)")
     (auto simp: wr_def split: if_splits)

declare unescape_loop.simps [simp del]

definition unescape :: "cm \<Rightarrow> char list \<Rightarrow> nat \<Rightarrow> char list res" where
  "unescape s buf fromChar = unescape_loop (escape_character s) buf fromChar fromChar"

subsection \<open>Initialisation\<close>

text \<open>
  \<open>reset()\<close> and \<open>init(...)\<close>. The constructor leaves \<open>startCommand\<close>, \<open>ArgOk\<close>,
  \<open>lastCommandId\<close>, the two escape cells, \<open>messageState\<close> and the buffer as it finds
  them, so \<open>init\<close> takes the storage \<open>mem\<close> of the object as it was before the
  constructor ran; \<open>zeroed\<close> is the storage of an object of static storage duration
  (zero-initialised), on a transport that will deliver \<open>input\<close> and a clock that will
  read \<open>ticks\<close>. The callback pointer is not a field of the record: the functions that
  use it take it as the argument \<open>cb\<close> (\<open>None\<close> is \<open>NULL\<close>).
\<close>

definition reset :: "cm \<Rightarrow> cm" where
  "reset s = s\<lparr>bufferIndex := 0, current := None, lastp := None, dumped := True\<rparr>"

definition init :: "cm \<Rightarrow> char \<Rightarrow> char \<Rightarrow> char \<Rightarrow> cm" where
  "init mem fld_separator cmd_separator esc_character =
     (reset (mem\<lparr>print_newlines := False,
                  field_separator := fld_separator,
                  command_separator := cmd_separator,
                  escape_character := esc_character,
                  bufferLength := of_nat MESSENGERBUFFERSIZE,
                  bufferLastIndex := of_nat (MESSENGERBUFFERSIZE - 1)\<rparr>))
       \<lparr>pauseProcessing := False\<rparr>"

definition zeroed :: "char option list \<Rightarrow> 32 word list \<Rightarrow> cm" where
  "zeroed input ticks =
     \<lparr>startCommand = False, pauseProcessing = False, print_newlines = False,
      dumped = False, ArgOk = False, lastCommandId = 0, bufferIndex = 0,
      bufferLength = 0, bufferLastIndex = 0, ArglastChar = NUL, CmdlastChar = NUL,
      commandBuffer = replicate MESSENGERBUFFERSIZE NUL,
      messageState = kProccesingMessage, current = None, lastp = None,
      command_separator = NUL, field_separator = NUL, escape_character = NUL,
      rx = input, tx = [], clock = ticks, dispatched = []\<rparr>"

text \<open>The constructor with its default arguments.\<close>

definition CmdMessenger :: "char option list \<Rightarrow> 32 word list \<Rightarrow> cm" where
  "CmdMessenger input ticks = init (zeroed input ticks) (CHR '','') (CHR '';'') (CHR ''/'')"

subsection \<open>The transport and the clock\<close>

fun ready :: "char option list \<Rightarrow> char list" where
  "ready (Some c # r) = c # ready r"
| "ready _ = []"

text \<open>
  \<open>comms->available()\<close>: the number of bytes that are there; a poll that finds nothing
  uses up one \<open>None\<close> of the script. \<open>comms->read()\<close> gives -1 when nothing is there,
  which is the byte 255 once it is passed as a \<open>char\<close>.
\<close>

definition comms_available :: "cm \<Rightarrow> nat \<times> cm" where
  "comms_available s =
     (case rx s of
        [] \<Rightarrow> (0, s)
      | None # r \<Rightarrow> (0, s\<lparr>rx := r\<rparr>)
      | Some c # r \<Rightarrow> (length (ready (rx s)), s))"

definition comms_read :: "cm \<Rightarrow> char \<times> cm" where
  "comms_read s =
     (case rx s of
        Some c # r \<Rightarrow> (c, s\<lparr>rx := r\<rparr>)
      | _ \<Rightarrow> (CHR 0xFF, s))"

definition comms_readBytes :: "nat \<Rightarrow> cm \<Rightarrow> char list \<times> cm" where
  "comms_readBytes n s =
     (let bytes = take n (ready (rx s)) in (bytes, s\<lparr>rx := drop (length bytes) (rx s)\<rparr>))"

definition millis :: "cm \<Rightarrow> (32 word \<times> cm) res" where
  "millis s = (case clock s of [] \<Rightarrow> Inl ScriptEnd | t # r \<Rightarrow> Inr (t, s\<lparr>clock := r\<rparr>))"

subsection \<open>Command processing\<close>

definition processLine :: "char \<Rightarrow> cm \<Rightarrow> (msg_state \<times> cm) res" where
  "processLine serialChar s0 =
     (let sa = s0\<lparr>messageState := kProccesingMessage\<rparr>;
          (escaped, lc) = isEscaped sa serialChar (escape_character sa) (CmdlastChar sa);
          s = sa\<lparr>CmdlastChar := lc\<rparr>
      in if serialChar = command_separator s \<and> \<not> escaped then
           bind_r (wr (commandBuffer s) (unat (bufferIndex s)) NUL) (\<lambda>buf.
             let s1 = s\<lparr>commandBuffer := buf\<rparr>;
                 s2 = (if bufferIndex s1 > 0
                       then s1\<lparr>messageState := kEndOfMessage, current := Some 0,
                               CmdlastChar := NUL\<rparr>
                       else s1);
                 s3 = reset s2
             in Inr (messageState s3, s3))
         else
           bind_r (wr (commandBuffer s) (unat (bufferIndex s)) serialChar) (\<lambda>buf.
             let s1 = s\<lparr>commandBuffer := buf, bufferIndex := bufferIndex s + 1\<rparr>;
                 s2 = (if bufferIndex s1 \<ge> bufferLastIndex s1 then reset s1 else s1)
             in Inr (messageState s2, s2)))"

subsection \<open>The argument tokenizer\<close>

text \<open>
  \<open>findNext(str, delim)\<close>: \<open>findNext_loop\<close> walks the memory from \<open>str\<close> on, with
  the cell \<open>ArglastChar\<close> and the count \<open>pos\<close>. The loop has no bound of its own:
  it leaves the buffer when no unescaped null byte or field separator stops it. The
  parameter \<open>delim\<close> is not used by the source either.
\<close>

fun findNext_loop :: "cm \<Rightarrow> char list \<Rightarrow> char \<Rightarrow> nat \<Rightarrow> (nat \<times> char) res" where
  "findNext_loop s [] lc pos = Inl OutOfBounds"
| "findNext_loop s (c # cs) lc pos =
     (let (escaped, lc1) = isEscaped s c (escape_character s) lc
      in if c = NUL \<and> \<not> escaped then Inr (pos, lc1)
         else if c = field_separator s \<and> \<not> escaped then Inr (pos, lc1)
         else findNext_loop s cs lc1 (pos + 1))"

definition findNext :: "nat option \<Rightarrow> char \<Rightarrow> cm \<Rightarrow> (nat \<times> cm) res" where
  "findNext str delim s =
     (case str of
        None \<Rightarrow> Inl NullDeref
      | Some p \<Rightarrow>
          bind_r (findNext_loop s (drop p (commandBuffer s)) NUL 0)
            (\<lambda>(pos, lc). Inr (pos, s\<lparr>ArglastChar := lc\<rparr>)))"

lemma findNext_loop_nonempty: "findNext_loop s m lc pos = Inr r \<Longrightarrow> m \<noteq> []"
  by (cases m) simp_all

lemma findNext_Inr:
  assumes "findNext (Some p) d s = Inr (pos, s1)"
  shows "p < length (commandBuffer s)" and "s1 = s\<lparr>ArglastChar := ArglastChar s1\<rparr>"
    and "commandBuffer s1 = commandBuffer s"
  using assms
  by (auto simp: findNext_def bind_r_eq_Inr dest: findNext_loop_nonempty)

text \<open>The loop of \<open>split_r\<close> that strips leading delimiters.\<close>

function strip_delims :: "nat \<Rightarrow> char \<Rightarrow> cm \<Rightarrow> (nat \<times> cm) res" where
  "strip_delims p delim s =
     bind_r (findNext (Some p) delim s) (\<lambda>(pos, s1).
       if pos = 0 then
         bind_r (rd (commandBuffer s1) p) (\<lambda>c.
           if c \<noteq> NUL then strip_delims (p + 1) delim s1 else Inr (p, s1))
       else Inr (p, s1))"
  by pat_completeness auto
termination
proof (relation "measure (\<lambda>(p, delim, s). length (commandBuffer s) - p)", goal_cases)
  case 1
  show ?case by simp
next
  case (2 p delim s x pos s1 c)
  then have f: "findNext (Some p) delim s = Inr (pos, s1)" by simp
  from findNext_Inr(1,3) [OF f] show ?case by simp
qed

declare strip_delims.simps [simp del]

text \<open>
  \<open>split_r(str, delim, nextp)\<close>; \<open>nextp\<close> is always \<open>&last\<close>. The result is the
  returned pointer.
\<close>

definition split_r :: "nat option \<Rightarrow> char \<Rightarrow> cm \<Rightarrow> (nat option \<times> cm) res" where
  "split_r str delim s =
     (case (case str of None \<Rightarrow> lastp s | Some p \<Rightarrow> Some p) of
        None \<Rightarrow> Inl NullDeref
      | Some p0 \<Rightarrow>
          bind_r (strip_delims p0 delim s) (\<lambda>(p, s1).
          bind_r (rd (commandBuffer s1) p) (\<lambda>c.
            if c = NUL then Inr (None, s1)
            else
              bind_r (findNext (Some p) delim s1) (\<lambda>(n, s2).
              bind_r (rd (commandBuffer s2) (p + n)) (\<lambda>d.
                if d \<noteq> NUL then
                  bind_r (wr (commandBuffer s2) (p + n) NUL) (\<lambda>buf.
                    Inr (Some p, s2\<lparr>commandBuffer := buf, lastp := Some (p + n + 1)\<rparr>))
                else Inr (Some p, s2\<lparr>lastp := Some (p + n)\<rparr>))))))"

text \<open>
  \<open>next()\<close>. \<open>next_default\<close> is the \<open>default:\<close> branch of the switch, which the case
  \<open>kEndOfMessage\<close> falls into with \<open>temppointer = commandBuffer\<close>.
\<close>

definition next_default :: "nat option \<Rightarrow> cm \<Rightarrow> (bool \<times> cm) res" where
  "next_default temppointer s =
     bind_r (if dumped s
             then bind_r (split_r temppointer (field_separator s) s)
                    (\<lambda>(r, s1). Inr (s1\<lparr>current := r\<rparr>))
             else Inr s)
       (\<lambda>s1. if current s1 \<noteq> None then Inr (True, s1\<lparr>dumped := True\<rparr>)
             else Inr (False, s1))"

definition next_tok :: "cm \<Rightarrow> (bool \<times> cm) res" where
  "next_tok s =
     (case messageState s of
        kProccesingMessage \<Rightarrow> Inr (False, s)
      | kEndOfMessage \<Rightarrow> next_default (Some 0) (s\<lparr>messageState := kProcessingArguments\<rparr>)
      | kProcessingArguments \<Rightarrow> next_default None s)"

subsection \<open>Typed reads\<close>

text \<open>
  \<open>atoi\<close> and \<open>atol\<close> of the C library on the memory from a pointer on: white space,
  an optional sign, decimal digits. The number is computed without a bound and cut to
  the width of the result by the caller, which is what the wrapping arithmetic of
  avr-libc gives.
\<close>

definition isspace :: "char \<Rightarrow> bool" where
  "isspace c = (c = CHR '' '' \<or> (9 \<le> (of_char c :: nat) \<and> (of_char c :: nat) \<le> 13))"

definition isdigit :: "char \<Rightarrow> bool" where
  "isdigit c = (48 \<le> (of_char c :: nat) \<and> (of_char c :: nat) \<le> 57)"

fun atoi_digits :: "char list \<Rightarrow> int \<Rightarrow> int res" where
  "atoi_digits [] acc = Inl OutOfBounds"
| "atoi_digits (c # cs) acc =
     (if isdigit c then atoi_digits cs (acc * 10 + (of_char c - 48)) else Inr acc)"

fun atoi :: "char list \<Rightarrow> int res" where
  "atoi [] = Inl OutOfBounds"
| "atoi (c # cs) =
     (if isspace c then atoi cs
      else if c = CHR ''-'' then bind_r (atoi_digits cs 0) (\<lambda>n. Inr (- n))
      else if c = CHR ''+'' then atoi_digits cs 0
      else atoi_digits (c # cs) 0)"

definition readInt16Arg :: "cm \<Rightarrow> (16 word \<times> cm) res" where
  "readInt16Arg s =
     bind_r (next_tok s) (\<lambda>(ok, s1).
       if ok then
         (case current s1 of
            None \<Rightarrow> Inl NullDeref
          | Some p \<Rightarrow>
              bind_r (atoi (drop p (commandBuffer s1)))
                (\<lambda>n. Inr (word_of_int n, s1\<lparr>dumped := True, ArgOk := True\<rparr>)))
       else Inr (0, s1\<lparr>ArgOk := False\<rparr>))"

definition readInt32Arg :: "cm \<Rightarrow> (32 word \<times> cm) res" where
  "readInt32Arg s =
     bind_r (next_tok s) (\<lambda>(ok, s1).
       if ok then
         (case current s1 of
            None \<Rightarrow> Inl NullDeref
          | Some p \<Rightarrow>
              bind_r (atoi (drop p (commandBuffer s1)))
                (\<lambda>n. Inr (word_of_int n, s1\<lparr>dumped := True, ArgOk := True\<rparr>)))
       else Inr (0, s1\<lparr>ArgOk := False\<rparr>))"

definition readBoolArg :: "cm \<Rightarrow> (bool \<times> cm) res" where
  "readBoolArg s = bind_r (readInt16Arg s) (\<lambda>(n, s1). Inr (n \<noteq> 0, s1))"

definition readCharArg :: "cm \<Rightarrow> (char \<times> cm) res" where
  "readCharArg s =
     bind_r (next_tok s) (\<lambda>(ok, s1).
       if ok then
         (case current s1 of
            None \<Rightarrow> Inl NullDeref
          | Some p \<Rightarrow>
              bind_r (rd (commandBuffer s1) p)
                (\<lambda>c. Inr (c, s1\<lparr>dumped := True, ArgOk := True\<rparr>)))
       else Inr (NUL, s1\<lparr>ArgOk := False\<rparr>))"

text \<open>
  \<open>readStringArg()\<close> returns a pointer into the buffer; on failure it returns
  \<open>'\0'\<close> converted to \<open>char *\<close>, the null pointer.
\<close>

definition readStringArg :: "cm \<Rightarrow> (nat option \<times> cm) res" where
  "readStringArg s =
     bind_r (next_tok s) (\<lambda>(ok, s1).
       if ok then Inr (current s1, s1\<lparr>dumped := True, ArgOk := True\<rparr>)
       else Inr (None, s1\<lparr>ArgOk := False\<rparr>))"

text \<open>
  \<open>copyStringArg(string, size)\<close>: \<open>dst\<close> is the caller's memory at \<open>string\<close>, returned
  as the call leaves it, \<open>sz\<close> is the parameter \<open>size\<close>. \<open>strlcpy\<close> copies at most \<open>size - 1\<close> bytes of the token and
  a terminator.
\<close>

definition strlcpy :: "char list \<Rightarrow> char list \<Rightarrow> nat \<Rightarrow> char list res" where
  "strlcpy dst src sz =
     (if NUL \<in> set src then
        (if sz = 0 then Inr dst
         else
           (let t = take (sz - 1) (takeWhile (\<lambda>c. c \<noteq> NUL) src) @ [NUL]
            in if length t \<le> length dst then Inr (t @ drop (length t) dst)
               else Inl OutOfBounds))
      else Inl OutOfBounds)"

definition copyStringArg :: "char list \<Rightarrow> 8 word \<Rightarrow> cm \<Rightarrow> (char list \<times> cm) res" where
  "copyStringArg dst sz s =
     bind_r (next_tok s) (\<lambda>(ok, s1).
       if ok then
         (case current s1 of
            None \<Rightarrow> Inl NullDeref
          | Some p \<Rightarrow>
              bind_r (strlcpy dst (drop p (commandBuffer s1)) (unat sz))
                (\<lambda>dst1. Inr (dst1, s1\<lparr>dumped := True, ArgOk := True\<rparr>)))
       else
         (if sz \<noteq> 0
          then bind_r (wr dst 0 NUL) (\<lambda>dst1. Inr (dst1, s1\<lparr>ArgOk := False\<rparr>))
          else Inr (dst, s1\<lparr>ArgOk := False\<rparr>)))"

text \<open>\<open>strcmp(a, b) == 0\<close> on two pieces of memory.\<close>

fun strcmp_eq :: "char list \<Rightarrow> char list \<Rightarrow> bool res" where
  "strcmp_eq (a # as) (b # bs) =
     (if a \<noteq> b then Inr False else if a = NUL then Inr True else strcmp_eq as bs)"
| "strcmp_eq _ _ = Inl OutOfBounds"

text \<open>
  \<open>compareStringArg(string)\<close>: \<open>str\<close> is the caller's memory at \<open>string\<close>. When
  \<open>next()\<close> fails the function returns 0 and touches no flag.
\<close>

definition compareStringArg :: "char list \<Rightarrow> cm \<Rightarrow> (8 word \<times> cm) res" where
  "compareStringArg str s =
     bind_r (next_tok s) (\<lambda>(ok, s1).
       if ok then
         (case current s1 of
            None \<Rightarrow> Inl NullDeref
          | Some p \<Rightarrow>
              bind_r (strcmp_eq str (drop p (commandBuffer s1))) (\<lambda>eq.
                if eq then Inr (1, s1\<lparr>dumped := True, ArgOk := True\<rparr>)
                else Inr (0, s1\<lparr>ArgOk := False\<rparr>)))
       else Inr (0, s1))"

text \<open>
  \<open>readBinArg<T>()\<close> with \<open>n = sizeof(T)\<close>: the value is given as its \<open>n\<close> bytes.
  \<open>readBin\<close> unescapes the token in place and copies \<open>n\<close> bytes from it, \<open>empty\<close>
  gives \<open>n\<close> null bytes. Neither branch writes \<open>ArgOk\<close>.
\<close>

definition readBin :: "nat \<Rightarrow> nat \<Rightarrow> cm \<Rightarrow> (char list \<times> cm) res" where
  "readBin n str s =
     bind_r (unescape s (commandBuffer s) str) (\<lambda>buf.
       if str + n \<le> length buf
       then Inr (take n (drop str buf), s\<lparr>commandBuffer := buf\<rparr>)
       else Inl OutOfBounds)"

definition empty_bin :: "nat \<Rightarrow> char list" where
  "empty_bin n = replicate n NUL"

definition readBinArg :: "nat \<Rightarrow> cm \<Rightarrow> (char list \<times> cm) res" where
  "readBinArg n s =
     bind_r (next_tok s) (\<lambda>(ok, s1).
       if ok then
         (case current s1 of
            None \<Rightarrow> Inl NullDeref
          | Some p \<Rightarrow> readBin n p (s1\<lparr>dumped := True\<rparr>))
       else Inr (empty_bin n, s1))"

definition isArgOk :: "cm \<Rightarrow> bool" where
  "isArgOk s = ArgOk s"

subsection \<open>Dispatch\<close>

text \<open>
  \<open>handleMessage()\<close>: the callback is code of the caller, a function on the object or
  \<open>None\<close> for the null pointer. Each call of it is recorded in \<open>dispatched\<close>, with
  the text of the frame as \<open>processLine\<close> completed it.
\<close>

definition handleMessage :: "(cm \<Rightarrow> cm res) option \<Rightarrow> cm \<Rightarrow> cm res" where
  "handleMessage cb s =
     bind_r (readInt16Arg s) (\<lambda>(cid, s1).
       let s2 = s1\<lparr>lastCommandId := ucast cid\<rparr>
       in case cb of
            None \<Rightarrow> Inr s2
          | Some f \<Rightarrow> f (s2\<lparr>dispatched := dispatched s2 @ [cstr (commandBuffer s) 0]\<rparr>))"

text \<open>The \<open>for\<close> loop of \<open>feedinSerialData\<close> over the bytes of one batch.\<close>

fun process_bytes :: "(cm \<Rightarrow> cm res) option \<Rightarrow> char list \<Rightarrow> cm \<Rightarrow> cm res" where
  "process_bytes cb [] s = Inr s"
| "process_bytes cb (c # cs) s =
     bind_r (processLine c s) (\<lambda>(st, s1).
       bind_r (if st = kEndOfMessage then handleMessage cb s1 else Inr s1)
         (\<lambda>s2. process_bytes cb cs s2))"

text \<open>
  \<open>feedinSerialData()\<close>: the \<open>while\<close> loop runs as long as the callback leaves bytes
  to read, so it is a partial function; \<open>None\<close> is a loop that does not end.
\<close>

partial_function (option) feedinSerialData ::
  "(cm \<Rightarrow> cm res) option \<Rightarrow> cm \<Rightarrow> cm res option" where
  "feedinSerialData cb s =
     (if pauseProcessing s then Some (Inr s)
      else
        (case comms_available s of
           (n, s1) \<Rightarrow>
             if n = 0 then Some (Inr s1)
             else
               (case comms_readBytes (min n MAXSTREAMBUFFERSIZE) s1 of
                  (bytes, s2) \<Rightarrow>
                    (case process_bytes cb bytes s2 of
                       Inl e \<Rightarrow> Some (Inl e)
                     | Inr s3 \<Rightarrow> feedinSerialData cb s3))))"

subsection \<open>The acknowledgment wait\<close>

text \<open>
  \<open>checkForAck(ackCommand)\<close>: every path through the body of the \<open>while\<close> returns,
  so one call reads at most one byte.
\<close>

definition checkForAck :: "8 word \<Rightarrow> cm \<Rightarrow> (bool \<times> cm) res" where
  "checkForAck ackCommand s =
     (case comms_available s of
        (n, s1) \<Rightarrow>
          if n \<noteq> 0 then
            (case comms_read s1 of
               (c, s2) \<Rightarrow>
                 bind_r (processLine c s2) (\<lambda>(st, s3).
                   if st = kEndOfMessage then
                     bind_r (readInt16Arg s3) (\<lambda>(cid, s4).
                       if uint ackCommand = sint cid \<and> ArgOk s4 then Inr (True, s4)
                       else Inr (False, s4))
                   else Inr (False, s3)))
          else Inr (False, s1))"

text \<open>None of these functions reads the clock.\<close>

lemma processLine_clock: "processLine c s = Inr (st, s') \<Longrightarrow> clock s' = clock s"
  unfolding processLine_def Let_def
  by (auto simp: reset_def bind_r_eq_Inr split: prod.splits if_splits)

lemma findNext_clock: "findNext str d s = Inr (pos, s') \<Longrightarrow> clock s' = clock s"
  by (auto simp: findNext_def bind_r_eq_Inr split: option.splits)

lemma strip_delims_clock: "strip_delims p d s = Inr (q, s') \<Longrightarrow> clock s' = clock s"
proof (induction p d s rule: strip_delims.induct)
  case (1 p delim s)
  from "1.prems" obtain pos s1 where f: "findNext (Some p) delim s = Inr (pos, s1)"
    and r: "(if pos = 0 then
         bind_r (rd (commandBuffer s1) p) (\<lambda>c.
           if c \<noteq> NUL then strip_delims (p + 1) delim s1 else Inr (p, s1))
       else Inr (p, s1)) = Inr (q, s')"
    by (subst (asm) strip_delims.simps) (auto simp: bind_r_eq_Inr)
  have c1: "clock s1 = clock s" using f by (rule findNext_clock)
  show ?case
  proof (cases "pos = 0")
    case True
    with r obtain c where c: "rd (commandBuffer s1) p = Inr c"
      and r2: "(if c \<noteq> NUL then strip_delims (p + 1) delim s1 else Inr (p, s1)) = Inr (q, s')"
      by (auto simp: bind_r_eq_Inr)
    show ?thesis
    proof (cases "c = NUL")
      case True
      with r2 c1 show ?thesis by simp
    next
      case False
      with r2 have "strip_delims (p + 1) delim s1 = Inr (q, s')" by simp
      from "1.IH" [OF f refl True c False this] c1 show ?thesis by simp
    qed
  next
    case False
    with r c1 show ?thesis by simp
  qed
qed

lemma split_r_clock: "split_r str d s = Inr (r, s') \<Longrightarrow> clock s' = clock s"
  unfolding split_r_def
  by (auto simp: bind_r_eq_Inr split: option.splits if_splits
      dest!: strip_delims_clock findNext_clock)

lemma next_default_clock: "next_default t s = Inr (r, s') \<Longrightarrow> clock s' = clock s"
  unfolding next_default_def
  by (auto simp: bind_r_eq_Inr split: if_splits dest!: split_r_clock)

lemma next_tok_clock: "next_tok s = Inr (r, s') \<Longrightarrow> clock s' = clock s"
  unfolding next_tok_def
  by (auto split: msg_state.splits dest!: next_default_clock)

lemma readInt16Arg_clock: "readInt16Arg s = Inr (r, s') \<Longrightarrow> clock s' = clock s"
  unfolding readInt16Arg_def
  by (auto simp: bind_r_eq_Inr split: if_splits option.splits dest!: next_tok_clock)

lemma checkForAck_clock: "checkForAck a s = Inr (r, s') \<Longrightarrow> clock s' = clock s"
  unfolding checkForAck_def comms_available_def comms_read_def
  by (auto simp: bind_r_eq_Inr
      split: if_splits list.splits option.splits
      dest!: readInt16Arg_clock processLine_clock)

text \<open>
  \<open>blockedTillReply(timeout, ackCmdId)\<close>: \<open>blocked_loop\<close> is the \<open>while\<close> loop with
  the locals \<open>start\<close>, \<open>time\<close> and \<open>receivedAck\<close>. \<open>unsigned long\<close> is 32 bits
  wide and the subtraction wraps; \<open>timeout\<close> is the parameter after its conversion to
  \<open>unsigned long\<close>. Each turn of the loop takes one reading from the clock.
\<close>

function blocked_loop ::
  "32 word \<Rightarrow> 32 word \<Rightarrow> 8 word \<Rightarrow> 32 word \<Rightarrow> bool \<Rightarrow> cm \<Rightarrow> (bool \<times> cm) res" where
  "blocked_loop start timeout ackCmdId time receivedAck s =
     (if time - start < timeout \<and> \<not> receivedAck then
        bind_r (millis s) (\<lambda>(time1, s1).
          bind_r (checkForAck ackCmdId s1) (\<lambda>(receivedAck1, s2).
            blocked_loop start timeout ackCmdId time1 receivedAck1 s2))
      else Inr (receivedAck, s))"
  by pat_completeness auto
termination
proof (relation "measure (\<lambda>(start, timeout, ackCmdId, time, receivedAck, s). length (clock s))",
    goal_cases)
  case 1
  show ?case by simp
next
  case (2 start timeout ackCmdId time receivedAck s x time1 s1 y receivedAck1 s2)
  then have m: "millis s = Inr (time1, s1)" and c: "checkForAck ackCmdId s1 = Inr (receivedAck1, s2)"
    by simp_all
  from m have "length (clock s1) < length (clock s)"
    by (auto simp: millis_def split: list.splits)
  with checkForAck_clock [OF c] show ?case by simp
qed

declare blocked_loop.simps [simp del]

definition blockedTillReply :: "32 word \<Rightarrow> 8 word \<Rightarrow> cm \<Rightarrow> (bool \<times> cm) res" where
  "blockedTillReply timeout ackCmdId s =
     bind_r (millis s) (\<lambda>(time, s1). blocked_loop time timeout ackCmdId time False s1)"

subsection \<open>Command sending\<close>

text \<open>\<open>comms->print\<close> of a number prints it in decimal.\<close>

fun print_nat :: "nat \<Rightarrow> char list" where
  "print_nat n =
     (if n < 10 then [char_of (48 + n)]
      else print_nat (n div 10) @ [char_of (48 + n mod 10)])"

declare print_nat.simps [simp del]

definition print_int :: "int \<Rightarrow> char list" where
  "print_int i = (if i < 0 then CHR ''-'' # print_nat (nat (- i)) else print_nat (nat i))"

definition sendCmdStart :: "8 word \<Rightarrow> cm \<Rightarrow> cm" where
  "sendCmdStart cmdId s =
     (if \<not> startCommand s
      then comms_print (print_nat (unat cmdId)) (s\<lparr>startCommand := True, pauseProcessing := True\<rparr>)
      else s)"

text \<open>\<open>sendCmdEscArg(arg)\<close> and \<open>sendCmdArg(arg)\<close> for a string: \<open>arg\<close> is the memory at the pointer.\<close>

definition sendCmdEscArg :: "char list \<Rightarrow> cm \<Rightarrow> cm res" where
  "sendCmdEscArg arg s =
     (if startCommand s then printEsc_str arg (comms_print [field_separator s] s) else Inr s)"

definition sendCmdArg :: "char list \<Rightarrow> cm \<Rightarrow> cm res" where
  "sendCmdArg arg s =
     (if startCommand s then
        (if NUL \<in> set arg
         then Inr (comms_print (takeWhile (\<lambda>c. c \<noteq> NUL) arg) (comms_print [field_separator s] s))
         else Inl OutOfBounds)
      else Inr s)"

definition sendCmdEnd :: "bool \<Rightarrow> 8 word \<Rightarrow> 32 word \<Rightarrow> cm \<Rightarrow> (bool \<times> cm) res" where
  "sendCmdEnd reqAc ackCmdId timeout s =
     bind_r
       (if startCommand s then
          (let s1 = comms_print [command_separator s] s;
               s2 = (if print_newlines s1 then comms_print [CHR 0x0D, CHR 0x0A] s1 else s1)
           in if reqAc then blockedTillReply timeout ackCmdId s2 else Inr (False, s2))
        else Inr (False, s))
       (\<lambda>(ackReply, s3). Inr (ackReply, s3\<lparr>pauseProcessing := False, startCommand := False\<rparr>))"

definition DEFAULT_TIMEOUT :: "32 word" where
  "DEFAULT_TIMEOUT = 5000"

text \<open>\<open>sendCmd(cmdId, reqAc, ackCmdId)\<close>, the command without arguments.\<close>

definition sendCmd :: "8 word \<Rightarrow> bool \<Rightarrow> 8 word \<Rightarrow> cm \<Rightarrow> (bool \<times> cm) res" where
  "sendCmd cmdId reqAc ackCmdId s =
     (if \<not> startCommand s
      then sendCmdEnd reqAc ackCmdId DEFAULT_TIMEOUT (sendCmdStart cmdId s)
      else Inr (False, s))"

subsection \<open>The scientific format\<close>

text \<open>
  \<open>printSci(f, digits)\<close>. A \<open>double\<close> is infinite, not a number, or finite; a finite
  value is a rational number and the arithmetic on it is exact, so the model is the
  source wherever the floating-point operations of the source are exact (as they are on
  values with a short binary expansion), and \<open>pow\<close> and \<open>log10\<close> are taken to be
  exact. \<open>sci_parts\<close> is the computation of \<open>whole\<close>, \<open>part\<close> and \<open>exponent\<close> for
  a value that is not negative.
\<close>

datatype dbl = Finite rat | PlusInf | MinusInf | NotANumber

function ilog10 :: "rat \<Rightarrow> int" where
  "ilog10 q = (if q < 10 then 0 else 1 + ilog10 (q / 10))"
  by pat_completeness auto
termination
proof (relation "measure (\<lambda>q. nat \<lfloor>q\<rfloor>)", goal_cases)
  case 1
  show ?case by simp
next
  case (2 q)
  then have q: "10 \<le> q" by simp
  then have "q / 10 \<le> q - 1" by simp
  then have "\<lfloor>q / 10\<rfloor> \<le> \<lfloor>q - 1\<rfloor>" by (rule floor_mono)
  then have a: "\<lfloor>q / 10\<rfloor> < \<lfloor>q\<rfloor>" by simp
  from q have "\<lfloor>10 :: rat\<rfloor> \<le> \<lfloor>q\<rfloor>" by (rule floor_mono)
  then have "0 < \<lfloor>q\<rfloor>" by simp
  with a show ?case by simp
qed

declare ilog10.simps [simp del]

definition sci_parts :: "rat \<Rightarrow> nat \<Rightarrow> int \<times> int \<times> int" where
  "sci_parts f digits0 =
     (let digits = (if digits0 > 6 then 6 else digits0);
          multiplier = (10 :: int) ^ digits;
          exponent = (if \<bar>f\<bar> < 10 then 0 else ilog10 f);
          g = f / (if exponent \<ge> 0 then 10 ^ nat exponent else 1 / 10 ^ nat (- exponent));
          (g1, exponent1) = (if g < 1 \<and> g \<noteq> 0 then (g * 10, exponent - 1) else (g, exponent));
          whole = \<lfloor>g1\<rfloor>;
          part = \<lfloor>(g1 - of_int whole) * of_int multiplier + 1 / 2\<rfloor>
      in if part = 100 then (whole + 1, 0, exponent1) else (whole, part, exponent1))"

text \<open>\<open>sprintf\<close> with the format \<open>%ld.%0<digits>ldE%+d\<close>.\<close>

definition zero_pad :: "nat \<Rightarrow> char list \<Rightarrow> char list" where
  "zero_pad w cs = replicate (w - length cs) (CHR ''0'') @ cs"

definition sci_format :: "nat \<Rightarrow> int \<Rightarrow> int \<Rightarrow> int \<Rightarrow> char list" where
  "sci_format digits whole part exponent =
     print_int whole @ ''.'' @
     (if part < 0 then print_int part else zero_pad digits (print_int part)) @ ''E'' @
     (if exponent < 0 then print_int exponent else CHR ''+'' # print_int exponent)"

definition printSci :: "dbl \<Rightarrow> nat \<Rightarrow> cm \<Rightarrow> cm" where
  "printSci f digits s =
     (case f of
        PlusInf \<Rightarrow> comms_print ''INF'' s
      | MinusInf \<Rightarrow> comms_print ''INF'' (comms_print ''-'' s)
      | NotANumber \<Rightarrow> comms_print ''NaN'' s
      | Finite q \<Rightarrow>
          (let s1 = (if q < 0 then comms_print ''-'' s else s);
               (whole, part, exponent) = sci_parts \<bar>q\<bar> digits
           in comms_print (sci_format (if digits > 6 then 6 else digits) whole part exponent) s1))"

subsection \<open>Auxiliary definitions for the statements\<close>

text \<open>
  The bytes that \<open>printEsc\<close> puts on the wire for one byte and for a sequence, the
  flags that \<open>isEscaped\<close> reports when a sequence of raw bytes is fed through it with a
  running cell, and the frame reader fed a byte stream on its own: \<open>processLine\<close> on
  each byte in turn, the returned states collected.
\<close>

definition enc1 :: "cm \<Rightarrow> char \<Rightarrow> char list" where
  "enc1 s c = tx (printEsc c (s\<lparr>tx := []\<rparr>))"

definition enc :: "cm \<Rightarrow> char list \<Rightarrow> char list" where
  "enc s xs = concat (map (enc1 s) xs)"

fun escaped_run :: "cm \<Rightarrow> char \<Rightarrow> char list \<Rightarrow> bool list" where
  "escaped_run s lastByte [] = []"
| "escaped_run s lastByte (c # cs) =
     (case isEscaped s c (escape_character s) lastByte of
        (escaped, lastByte1) \<Rightarrow> escaped # escaped_run s lastByte1 cs)"

fun read_frames :: "char list \<Rightarrow> cm \<Rightarrow> (msg_state list \<times> cm) res" where
  "read_frames [] s = Inr ([], s)"
| "read_frames (c # cs) s =
     bind_r (processLine c s) (\<lambda>(st, s1).
       bind_r (read_frames cs s1) (\<lambda>(sts, s2). Inr (st # sts, s2)))"


text \<open>
  The object after \<open>processLine\<close> stored the byte \<open>c\<close> without a reset, and after it
  ended a frame on an unescaped command separator.
\<close>

definition stored :: "char \<Rightarrow> cm \<Rightarrow> cm" where
  "stored c s =
     s\<lparr>messageState := kProccesingMessage,
       CmdlastChar := (if c = escape_character s \<and> CmdlastChar s = escape_character s then NUL else c),
       commandBuffer := (commandBuffer s)[unat (bufferIndex s) := c],
       bufferIndex := bufferIndex s + 1\<rparr>"

definition ended :: "cm \<Rightarrow> cm" where
  "ended s =
     s\<lparr>messageState := (if bufferIndex s > 0 then kEndOfMessage else kProccesingMessage),
       CmdlastChar := (if bufferIndex s > 0 then NUL else command_separator s),
       commandBuffer := (commandBuffer s)[unat (bufferIndex s) := NUL],
       bufferIndex := 0, current := None, lastp := None, dumped := True\<rparr>"

text \<open>
  The body of the loop of \<open>blockedTillReply\<close>, a clock reading and a call of
  \<open>checkForAck\<close>, run \<open>n\<close> times: the readings and the answers, in order.
\<close>

fun poll_run :: "8 word \<Rightarrow> nat \<Rightarrow> cm \<Rightarrow> ((32 word \<times> bool) list \<times> cm) res" where
  "poll_run ackCmdId 0 s = Inr ([], s)"
| "poll_run ackCmdId (Suc n) s =
     bind_r (millis s) (\<lambda>(time, s1).
       bind_r (checkForAck ackCmdId s1) (\<lambda>(receivedAck, s2).
         bind_r (poll_run ackCmdId n s2) (\<lambda>(trs, s3). Inr ((time, receivedAck) # trs, s3))))"

text \<open>
  The object after \<open>processLine\<close> stored the byte \<open>c\<close> and reset the buffer because
  the cursor reached \<open>bufferLastIndex\<close>.
\<close>

definition overflowed :: "char \<Rightarrow> cm \<Rightarrow> cm" where
  "overflowed c s = reset (stored c s)"




text \<open>The fields that the frame reader works on, and the configuration.\<close>

definition reader_fields ::
  "cm \<Rightarrow> 8 word \<times> 8 word \<times> nat \<times> char \<times> char \<times> char \<times> char" where
  "reader_fields s =
     (bufferIndex s, bufferLastIndex s, length (commandBuffer s), CmdlastChar s,
      command_separator s, escape_character s, field_separator s)"

declare feedinSerialData.simps [code]

section \<open>Facts about lists\<close>

lemma takeWhile_to_NUL: "NUL \<notin> set xs \<Longrightarrow> takeWhile (\<lambda>c. c \<noteq> NUL) (xs @ NUL # ys) = xs"
  by (induction xs) auto

lemma take_Suc_update: "to < length L \<Longrightarrow> take (Suc to) (L[to := c]) = take to L @ [c]"
  by (simp add: take_Suc_conv_app_nth)

section \<open>The escape codec\<close>

lemma enc1_eq:
  "enc1 s c = (if c = field_separator s \<or> c = command_separator s \<or> c = escape_character s \<or> c = NUL
               then [escape_character s, c] else [c])"
  by (simp add: enc1_def printEsc_def comms_print_def)

lemma printEsc_tx: "printEsc c s = s\<lparr>tx := tx s @ enc1 s c\<rparr>"
  by (simp add: enc1_eq printEsc_def comms_print_def)

lemma enc1_upd [simp]: "enc1 (s\<lparr>tx := t\<rparr>) = enc1 s"
  by (rule ext) (simp add: enc1_eq)

lemma enc_Cons: "enc s (x # xs) = enc1 s x @ enc s xs"
  by (simp add: enc_def)

lemma enc_upd [simp]: "enc (s\<lparr>tx := t\<rparr>) xs = enc s xs"
  by (simp add: enc_def)

lemma length_enc: "length xs \<le> length (enc s xs)"
  by (induction xs) (auto simp: enc_Cons enc_def enc1_eq)

lemma printEsc_str_tx:
  "NUL \<notin> set xs \<Longrightarrow> printEsc_str (xs @ NUL # r) s = Inr (s\<lparr>tx := tx s @ enc s xs\<rparr>)"
proof (induction xs arbitrary: s)
  case Nil
  then show ?case by (simp add: enc_def)
next
  case (Cons x xs)
  then show ?case by (auto simp add: printEsc_tx enc_Cons)
qed

lemma pad_zero_eq:
  "to + n \<le> length buf \<Longrightarrow> pad_zero buf to n = take to buf @ replicate n NUL @ drop (to + n) buf"
proof (induction n arbitrary: buf to)
  case 0
  then show ?case by simp
next
  case (Suc n)
  have "pad_zero buf to (Suc n) = pad_zero (buf[to := NUL]) (Suc to) n" by simp
  also have "\<dots> = take (Suc to) (buf[to := NUL]) @ replicate n NUL @ drop (Suc to + n) (buf[to := NUL])"
    using Suc.prems by (intro Suc.IH) simp
  also have "\<dots> = take to buf @ replicate (Suc n) NUL @ drop (to + Suc n) buf"
    using Suc.prems by (simp add: take_Suc_conv_app_nth)
  finally show ?case .
qed

lemma unescape_step_plain:
  assumes "from < length buf" "buf ! from \<noteq> NUL" "buf ! from \<noteq> esc" "to \<le> from"
  shows "unescape_loop esc buf from to = unescape_loop esc (buf[to := buf ! from]) (from + 1) (to + 1)"
  using assms by (subst unescape_loop.simps) (simp add: wr_def)

lemma unescape_step_esc:
  assumes "from + 1 < length buf" "buf ! from = esc" "esc \<noteq> NUL" "to \<le> from"
  shows "unescape_loop esc buf from to
         = unescape_loop esc (buf[to := buf ! (from + 1)]) (from + 2) (to + 1)"
  using assms by (subst unescape_loop.simps) (simp add: wr_def)

lemma unescape_loop_enc:
  assumes "escape_character s \<noteq> NUL" "NUL \<notin> set xs" "to \<le> length A"
  shows "unescape_loop (escape_character s) (A @ enc s xs @ NUL # R) (length A) to
         = Inr (take to A @ xs @ replicate (length A + length (enc s xs) - to - length xs) NUL @ NUL # R)"
  using assms
proof (induction xs arbitrary: A to)
  case Nil
  then show ?case
    by (subst unescape_loop.simps) (simp add: enc_def pad_zero_eq nth_append)
next
  case (Cons x xs)
  let ?esc = "escape_character s"
  let ?rest = "enc s xs @ NUL # R"
  from Cons.prems have x: "x \<noteq> NUL" and xs: "NUL \<notin> set xs" by auto
  show ?case
  proof (cases "enc1 s x = [x]")
    case True
    then have ne: "x \<noteq> ?esc" by (auto simp: enc1_eq split: if_splits)
    let ?A = "(A @ [x])[to := x]"
    have buf: "A @ enc s (x # xs) @ NUL # R = (A @ [x]) @ ?rest"
      using True by (simp add: enc_Cons)
    have "unescape_loop ?esc ((A @ [x]) @ ?rest) (length A) to
          = unescape_loop ?esc (((A @ [x]) @ ?rest)[to := x]) (length A + 1) (to + 1)"
      using x ne Cons.prems(3) unescape_step_plain [of "length A" "(A @ [x]) @ ?rest" ?esc to]
      by (simp add: nth_append)
    also have "((A @ [x]) @ ?rest)[to := x] = ?A @ ?rest"
      using Cons.prems(3) by (simp add: list_update_append)
    also have "unescape_loop ?esc (?A @ ?rest) (length A + 1) (to + 1)
          = Inr (take (to + 1) ?A @ xs @ replicate (length ?A + length (enc s xs) - (to + 1) - length xs) NUL @ NUL # R)"
      using Cons.IH [of "to + 1" ?A] Cons.prems(1,3) xs by simp
    also have "take (to + 1) ?A = take to A @ [x]"
      using Cons.prems(3) by (simp add: take_Suc_update)
    finally show ?thesis
      using True by (simp add: buf enc_Cons)
  next
    case False
    then have e: "enc1 s x = [?esc, x]" by (auto simp: enc1_eq split: if_splits)
    let ?A = "(A @ [?esc, x])[to := x]"
    have buf: "A @ enc s (x # xs) @ NUL # R = (A @ [?esc, x]) @ ?rest"
      using e by (simp add: enc_Cons)
    have "unescape_loop ?esc ((A @ [?esc, x]) @ ?rest) (length A) to
          = unescape_loop ?esc (((A @ [?esc, x]) @ ?rest)[to := x]) (length A + 2) (to + 1)"
      using Cons.prems(1,3) unescape_step_esc [of "length A" "(A @ [?esc, x]) @ ?rest" ?esc to]
      by (simp add: nth_append)
    also have "((A @ [?esc, x]) @ ?rest)[to := x] = ?A @ ?rest"
      using Cons.prems(3) by (simp add: list_update_append)
    also have "unescape_loop ?esc (?A @ ?rest) (length A + 2) (to + 1)
          = Inr (take (to + 1) ?A @ xs @ replicate (length ?A + length (enc s xs) - (to + 1) - length xs) NUL @ NUL # R)"
      using Cons.IH [of "to + 1" ?A] Cons.prems(1,3) xs by simp
    also have "take (to + 1) ?A = take to A @ [x]"
      using Cons.prems(3) by (simp add: take_Suc_update)
    finally show ?thesis
      using e by (simp add: buf enc_Cons)
  qed
qed

text \<open>
  C1, as stated, with the null byte as escape character (the constructor takes any
  byte) and the argument \<open>,\<close>: \<open>printEsc\<close> writes a null byte and the comma, and
  \<open>unescape\<close> stops at the null byte, so the C string that comes back is empty.
\<close>

theorem printEsc_unescape_null_escape:
  "map_sum id tx (printEsc_str ('','' @ [NUL]) (init (zeroed [] []) (CHR '','') (CHR '';'') NUL))
     = Inr [NUL, CHR '','']
   \<and> map_sum id (\<lambda>buf. cstr buf 0)
       (unescape (init (zeroed [] []) (CHR '','') (CHR '';'') NUL) ([NUL, CHR '',''] @ [NUL]) 0)
     = Inr []"
  by code_simp

text \<open>
  C1, amended. For an escape character that is not the null byte and an argument
  without null bytes, what \<open>printEsc\<close> writes for the argument, handed to
  \<open>unescape\<close> as a C string, comes back as the argument, followed by null bytes only.
\<close>

theorem printEsc_unescape_roundtrip:
  assumes "NUL \<notin> set arg" and "escape_character s \<noteq> NUL"
  shows "\<exists>wire buf. printEsc_str (arg @ [NUL]) s = Inr (s\<lparr>tx := tx s @ wire\<rparr>)
           \<and> unescape s (wire @ [NUL]) 0 = Inr buf
           \<and> buf = arg @ replicate (Suc (length wire) - length arg) NUL
           \<and> cstr buf 0 = arg"
proof -
  let ?wire = "enc s arg"
  let ?buf = "arg @ replicate (Suc (length ?wire) - length arg) NUL"
  have p: "printEsc_str (arg @ [NUL]) s = Inr (s\<lparr>tx := tx s @ ?wire\<rparr>)"
    using assms(1) by (rule printEsc_str_tx)
  have "unescape_loop (escape_character s) ([] @ ?wire @ NUL # []) (length ([] :: char list)) 0
        = Inr (take 0 [] @ arg @ replicate (length ([] :: char list) + length ?wire - 0 - length arg) NUL @ NUL # [])"
    using assms by (intro unescape_loop_enc) simp_all
  then have "unescape s (?wire @ [NUL]) 0 = Inr (arg @ replicate (length ?wire - length arg) NUL @ [NUL])"
    by (simp add: unescape_def)
  also have "replicate (length ?wire - length arg) NUL @ [NUL]
             = replicate (Suc (length ?wire) - length arg) NUL"
    using length_enc [of arg s] by (simp add: Suc_diff_le replicate_append_same)
  finally have u: "unescape s (?wire @ [NUL]) 0 = Inr ?buf" .
  have c: "cstr ?buf 0 = arg"
    using assms(1) length_enc [of arg s]
    by (simp add: cstr_def takeWhile_to_NUL Suc_diff_le)
  from p u c show ?thesis by blast
qed

theorem printEsc_unescape_roundtrip_witness:
  "NUL \<notin> set ''a//b,c;'' \<and> escape_character (CmdMessenger [] []) \<noteq> NUL \<and>
   (\<exists>wire buf. printEsc_str (''a//b,c;'' @ [NUL]) (CmdMessenger [] [])
                  = Inr ((CmdMessenger [] [])\<lparr>tx := tx (CmdMessenger [] []) @ wire\<rparr>)
           \<and> unescape (CmdMessenger [] []) (wire @ [NUL]) 0 = Inr buf
           \<and> buf = ''a//b,c;'' @ replicate (Suc (length wire) - length ''a//b,c;'') NUL
           \<and> cstr buf 0 = ''a//b,c;'')"
  using printEsc_unescape_roundtrip [of "''a//b,c;''" "CmdMessenger [] []"]
  by (simp add: NUL_def CmdMessenger_def init_def reset_def zeroed_def)

lemma roundtrip_double_escape_example:
  "map_sum id tx (printEsc_str (''a//b,c;'' @ [NUL]) (CmdMessenger [] [])) = Inr ''a////b/,c/;''
   \<and> unescape (CmdMessenger [] []) (''a////b/,c/;'' @ [NUL]) 0
       = Inr (''a//b,c;'' @ replicate 5 NUL)"
  by code_simp

section \<open>The escape detector\<close>

lemma isEscaped_eq:
  "isEscaped s c (escape_character s) l
   = (l = escape_character s, if c = escape_character s \<and> l = escape_character s then NUL else c)"
  by (auto simp: isEscaped_def Let_def)

lemma escaped_run_Cons:
  "escaped_run s l (b # bs)
   = (l = escape_character s)
     # escaped_run s (if b = escape_character s \<and> l = escape_character s then NUL else b) bs"
  by (simp add: isEscaped_eq)

text \<open>
  C2, as stated, at the bytes \<open>///x\<close> with the default escape character: the second
  byte is an escaped escape byte and clears the cell, the third byte is an escape byte
  again, and the fourth byte is reported escaped.
\<close>

theorem isEscaped_third_escapes_fourth:
  "escaped_run (CmdMessenger [] []) NUL ''///x'' = [False, True, False, True]"
  by code_simp

text \<open>
  C2, amended. One call reports the byte escaped exactly when the cell holds the escape
  character, and leaves the current byte in the cell, or the null byte when the current
  byte is an escaped escape character. Over a sequence, for an escape character that is
  not the null byte: a byte is reported escaped exactly when the byte before it is the
  escape character and was not itself reported escaped.
\<close>

theorem isEscaped_run_characterisation:
  assumes "escape_character s \<noteq> NUL" and "i < length bs"
  shows "isEscaped s c (escape_character s) l
           = (l = escape_character s,
              if c = escape_character s \<and> l = escape_character s then NUL else c)
         \<and> escaped_run s l bs ! i
           = (if i = 0 then l = escape_character s
              else bs ! (i - 1) = escape_character s \<and> \<not> escaped_run s l bs ! (i - 1))"
proof -
  have "escaped_run s l bs ! i
           = (if i = 0 then l = escape_character s
              else bs ! (i - 1) = escape_character s \<and> \<not> escaped_run s l bs ! (i - 1))"
    using assms(2)
  proof (induction bs arbitrary: l i)
    case Nil
    then show ?case by simp
  next
    case (Cons b bs)
    show ?case
    proof (cases i)
      case 0
      then show ?thesis by (simp add: escaped_run_Cons del: escaped_run.simps)
    next
      case (Suc j)
      with Cons.prems have j: "j < length bs" by simp
      let ?l = "if b = escape_character s \<and> l = escape_character s then NUL else b"
      have run: "escaped_run s l (b # bs) = (l = escape_character s) # escaped_run s ?l bs"
        by (rule escaped_run_Cons)
      show ?thesis
      proof (cases j)
        case 0
        with Suc show ?thesis
          using Cons.IH [OF j, of ?l] assms(1) by (auto simp: run simp del: escaped_run.simps)
      next
        case (Suc k)
        with \<open>i = Suc j\<close> show ?thesis
          using Cons.IH [OF j, of ?l] by (simp add: run del: escaped_run.simps)
      qed
    qed
  qed
  then show ?thesis by (simp add: isEscaped_eq)
qed

theorem isEscaped_run_characterisation_witness:
  "escape_character (CmdMessenger [] []) \<noteq> NUL \<and> 2 < length ''//,'' \<and>
   isEscaped (CmdMessenger [] []) (CHR ''/'') (escape_character (CmdMessenger [] [])) (CHR ''/'')
     = (True, NUL) \<and>
   escaped_run (CmdMessenger [] []) NUL ''//,'' ! 2 = False"
  using isEscaped_run_characterisation [of "CmdMessenger [] []" 2 "''//,''" "CHR ''/''" "CHR ''/''"]
  by (simp add: NUL_def CmdMessenger_def init_def reset_def zeroed_def isEscaped_def)

section \<open>Sending\<close>

text \<open>
  C10. When no command is being built, \<open>sendCmdEnd\<close> returns \<open>false\<close> and changes the
  object in the two flags only: nothing is printed, no byte and no clock reading is
  taken, \<open>pauseProcessing\<close> and \<open>startCommand\<close> are cleared.
\<close>

theorem sendCmdEnd_idle:
  assumes "\<not> startCommand s"
  shows "sendCmdEnd reqAc ackCmdId timeout s
         = Inr (False, s\<lparr>pauseProcessing := False, startCommand := False\<rparr>)"
  using assms by (simp add: sendCmdEnd_def)

theorem sendCmdEnd_idle_witness:
  "\<not> startCommand ((CmdMessenger [] [])\<lparr>pauseProcessing := True\<rparr>) \<and>
   pauseProcessing ((CmdMessenger [] [])\<lparr>pauseProcessing := True\<rparr>) \<and>
   sendCmdEnd True 1 5000 ((CmdMessenger [] [])\<lparr>pauseProcessing := True\<rparr>)
     = Inr (False, (CmdMessenger [] [])\<lparr>pauseProcessing := False, startCommand := False\<rparr>)"
  using sendCmdEnd_idle [of "(CmdMessenger [] [])\<lparr>pauseProcessing := True\<rparr>" True 1 5000]
  by (simp add: CmdMessenger_def init_def reset_def zeroed_def)

section \<open>The frame reader\<close>

lemma processLine_empty_buffer:
  assumes "bufferIndex s = 0" and "commandBuffer s \<noteq> []"
  shows "\<exists>s'. processLine c s = Inr (kProccesingMessage, s') \<and> dispatched s' = dispatched s"
proof (cases "c = command_separator s \<and> CmdlastChar s \<noteq> escape_character s")
  case True
  with assms show ?thesis
    by (simp add: processLine_def isEscaped_def Let_def wr_def reset_def)
next
  case False
  with assms show ?thesis
    by (auto simp: processLine_def isEscaped_def Let_def wr_def reset_def)
qed

text \<open>
  C4. A byte fed to the frame reader while the buffer is empty, the command separator in
  particular, makes \<open>processLine\<close> return \<open>kProccesingMessage\<close>, and the loop of
  \<open>feedinSerialData\<close> calls no callback for it. For the input \<open>;;5,x;\<close> with the
  default separators and a callback attached, only the last byte returns
  \<open>kEndOfMessage\<close> and the callback is called once, for the frame \<open>5,x\<close>.
\<close>

theorem empty_frame_no_dispatch:
  assumes "bufferIndex s = 0" and "commandBuffer s \<noteq> []"
  shows "(\<exists>s'. processLine c s = Inr (kProccesingMessage, s')
               \<and> process_bytes cb [c] s = Inr s' \<and> dispatched s' = dispatched s)
         \<and> map_sum id fst (read_frames '';;5,x;'' (CmdMessenger [] []))
             = Inr [kProccesingMessage, kProccesingMessage, kProccesingMessage,
                    kProccesingMessage, kProccesingMessage, kEndOfMessage]
         \<and> map_option (map_sum id dispatched)
               (feedinSerialData (Some Inr) (CmdMessenger (map Some '';;5,x;'') []))
             = Some (Inr [''5,x''])"
proof -
  from processLine_empty_buffer [OF assms, of c]
  obtain s' where p: "processLine c s = Inr (kProccesingMessage, s')"
    and d: "dispatched s' = dispatched s" by blast
  from p have "process_bytes cb [c] s = Inr s'" by simp
  with p d have a: "\<exists>s'. processLine c s = Inr (kProccesingMessage, s')
               \<and> process_bytes cb [c] s = Inr s' \<and> dispatched s' = dispatched s" by blast
  have b: "map_sum id fst (read_frames '';;5,x;'' (CmdMessenger [] []))
             = Inr [kProccesingMessage, kProccesingMessage, kProccesingMessage,
                    kProccesingMessage, kProccesingMessage, kEndOfMessage]"
    by code_simp
  have c: "map_option (map_sum id dispatched)
               (feedinSerialData (Some Inr) (CmdMessenger (map Some '';;5,x;'') []))
             = Some (Inr [''5,x''])"
    by code_simp
  from a b c show ?thesis by blast
qed

theorem empty_frame_no_dispatch_witness:
  "bufferIndex (CmdMessenger [] []) = 0 \<and> commandBuffer (CmdMessenger [] []) \<noteq> [] \<and>
   (\<exists>s'. processLine (CHR '';'') (CmdMessenger [] []) = Inr (kProccesingMessage, s')
         \<and> process_bytes (Some Inr) '';'' (CmdMessenger [] []) = Inr s'
         \<and> dispatched s' = dispatched (CmdMessenger [] []))"
  using empty_frame_no_dispatch [of "CmdMessenger [] []" "CHR '';''" "Some Inr"]
  by (simp add: CmdMessenger_def init_def reset_def zeroed_def MESSENGERBUFFERSIZE_def)

section \<open>The argument layer\<close>

text \<open>
  C6. The frame \<open>5,7,9\<close>, its id read by \<open>handleMessage\<close>: the first \<open>next()\<close>
  locates the token \<open>7\<close> at index 2 and leaves \<open>dumped\<close> true although no typed read
  took place; the second \<open>next()\<close> moves on to the token \<open>9\<close> at index 4.
\<close>

theorem next_skips_unread_token:
  "bind_r (process_bytes None ''5,7,9;'' (CmdMessenger [] []))
     (\<lambda>s. bind_r (next_tok s) (\<lambda>(ok1, s1). bind_r (next_tok s1) (\<lambda>(ok2, s2).
        Inr (ok1, current s1, dumped s1, ok2, current s2, cstr (commandBuffer s2) 4))))
   = Inr (True, Some 2, True, True, Some 4, ''9'')"
  by code_simp

text \<open>
  C7. The frame \<open>5\<close>, its id read by \<open>handleMessage\<close>, which sets \<open>ArgOk\<close>: a binary
  read of four bytes finds no token and returns four null bytes, a compare read finds no
  token and returns 0, and \<open>ArgOk\<close> is still true after each; the failed string read
  returns the null pointer.
\<close>

theorem failed_reads_leave_ArgOk:
  "bind_r (process_bytes None ''5;'' (CmdMessenger [] []))
     (\<lambda>s. bind_r (readBinArg 4 s) (\<lambda>(v, s1).
        bind_r (compareStringArg [NUL] s1) (\<lambda>(r, s2).
          bind_r (readStringArg s) (\<lambda>(p, s3).
            Inr (ArgOk s, v, ArgOk s1, r, ArgOk s2, p, ArgOk s3)))))
   = Inr (True, [NUL, NUL, NUL, NUL], True, 0, True, None, False)"
  by code_simp

text \<open>
  C8. The frame \<open>1,abc,def\<close>, its id read by \<open>handleMessage\<close>: the compare read of
  \<open>xyz\<close> against the token \<open>abc\<close> returns 0, and the string read that follows
  returns the token \<open>def\<close>.
\<close>

theorem compareStringArg_mismatch_consumes:
  "bind_r (process_bytes None ''1,abc,def;'' (CmdMessenger [] []))
     (\<lambda>s. bind_r (compareStringArg (''xyz'' @ [NUL]) s) (\<lambda>(r, s1).
        bind_r (readStringArg s1) (\<lambda>(p, s2).
          Inr (r, ArgOk s1, map_option (cstr (commandBuffer s2)) p))))
   = Inr (0, False, Some ''def'')"
  by code_simp

section \<open>The scientific format\<close>

text \<open>
  C9. With 3 digits the value 563/512 = 1.099609375 has the rounded fraction 100, not
  1000, and is carried to \<open>2.000E+0\<close>; with 1 digit the value 63/32 = 1.96875 has the
  rounded fraction 10 = 10^1 and is not carried: \<open>1.10E+0\<close>. Both values and all the
  intermediate results are exact in binary floating point.
\<close>

theorem printSci_carry_constant:
  "sci_parts (563 / 512) 3 = (2, 0, 0)
   \<and> tx (printSci (Finite (563 / 512)) 3 (CmdMessenger [] [])) = ''2.000E+0''
   \<and> sci_parts (63 / 32) 1 = (1, 10, 0)
   \<and> tx (printSci (Finite (63 / 32)) 1 (CmdMessenger [] [])) = ''1.10E+0''"
  by code_simp

section \<open>The acknowledgment wait\<close>

lemma millis_Inr: "millis s = Inr (t, s1) \<Longrightarrow> clock s = t # clock s1"
  by (auto simp: millis_def split: list.splits)

lemma blocked_loop_result:
  "blocked_loop start timeout ack time r0 s = Inr (r, s')
   \<Longrightarrow> \<exists>pre. clock s = pre @ clock s' \<and> (r \<or> \<not> last (time # pre) - start < timeout)"
proof (induction start timeout ack time r0 s rule: blocked_loop.induct)
  case (1 start timeout ack time r0 s)
  show ?case
  proof (cases "time - start < timeout \<and> \<not> r0")
    case True
    with "1.prems" obtain t1 s1 r1 s2 where m: "millis s = Inr (t1, s1)"
      and c: "checkForAck ack s1 = Inr (r1, s2)"
      and l: "blocked_loop start timeout ack t1 r1 s2 = Inr (r, s')"
      by (subst (asm) blocked_loop.simps) (auto simp: bind_r_eq_Inr)
    from "1.IH" [OF True m refl c refl l]
    obtain pre where p: "clock s2 = pre @ clock s'"
      and q: "r \<or> \<not> last (t1 # pre) - start < timeout" by blast
    from millis_Inr [OF m] checkForAck_clock [OF c] p
    have "clock s = (t1 # pre) @ clock s'" by simp
    moreover from q have "r \<or> \<not> last (time # t1 # pre) - start < timeout" by simp
    ultimately show ?thesis by blast
  next
    case False
    with "1.prems" have "r = r0" and "s' = s"
      by (subst (asm) blocked_loop.simps, simp)+
    with False have "clock s = [] @ clock s'" and "r \<or> \<not> last (time # []) - start < timeout"
      by auto
    then show ?thesis by blast
  qed
qed

lemma checkForAck_frame:
  assumes "comms_available s = (n, sa)" and "n \<noteq> 0" and "comms_read sa = (c, s2)"
    and "processLine c s2 = Inr (kEndOfMessage, s3)" and "readInt16Arg s3 = Inr (cid, s4)"
  shows "checkForAck ackCmdId s = Inr (uint ackCmdId = sint cid \<and> ArgOk s4, s4)"
  using assms by (simp add: checkForAck_def)

lemma blocked_loop_true:
  "blocked_loop start timeout ack time True s = Inr (True, s)"
  by (subst blocked_loop.simps) simp

lemma blocked_loop_step:
  assumes "time - start < timeout" and "millis s = Inr (t1, s1)"
    and "checkForAck ack s1 = Inr (r1, s2)"
  shows "blocked_loop start timeout ack time False s = blocked_loop start timeout ack t1 r1 s2"
  using assms by (subst blocked_loop.simps) simp

lemma blocked_loop_polls:
  assumes "poll_run ack n s = Inr (trs, s1)"
    and "\<forall>(t, r) \<in> set trs. \<not> r \<and> t - start < timeout"
    and "time - start < timeout"
  shows "blocked_loop start timeout ack time False s
         = blocked_loop start timeout ack (last (time # map fst trs)) False s1"
  using assms
proof (induction n arbitrary: s trs time)
  case 0
  then show ?case by simp
next
  case (Suc n)
  from Suc.prems(1) obtain t sa r sb trs' where m: "millis s = Inr (t, sa)"
    and c: "checkForAck ack sa = Inr (r, sb)"
    and p: "poll_run ack n sb = Inr (trs', s1)" and trs: "trs = (t, r) # trs'"
    by (auto simp: bind_r_eq_Inr)
  from Suc.prems(2) trs have r: "\<not> r" and t: "t - start < timeout"
    and rest: "\<forall>(t, r) \<in> set trs'. \<not> r \<and> t - start < timeout" by auto
  from blocked_loop_step [OF Suc.prems(3) m c] r
  have "blocked_loop start timeout ack time False s = blocked_loop start timeout ack t False sb"
    by simp
  also have "\<dots> = blocked_loop start timeout ack (last (t # map fst trs')) False s1"
    by (rule Suc.IH [OF p rest t])
  finally show ?case by (simp add: trs)
qed

lemma last_in_window:
  assumes "\<forall>(t, r) \<in> set trs. \<not> r \<and> t - start < (timeout :: 32 word)" and "time - start < timeout"
  shows "last (time # map fst trs) - start < timeout"
proof (cases "trs = []")
  case True
  with assms(2) show ?thesis by simp
next
  case False
  then have "last trs \<in> set trs" by simp
  with assms(1) have "fst (last trs) - start < timeout" by (auto simp: case_prod_beta)
  with False show ?thesis by (simp add: last_map)
qed

text \<open>
  C3, as stated, at the stream \<open>2;1;\<close> with the expected id 1 and a clock that stays
  within the window: the first completed frame is \<open>2\<close>, and the wait returns
  \<open>true\<close> on the frame \<open>1\<close> that follows it.
\<close>

theorem blockedTillReply_later_ack_accepted:
  "map_sum id fst (read_frames ''2;'' (CmdMessenger [] []))
     = Inr [kProccesingMessage, kEndOfMessage]
   \<and> map_sum id fst
       (blockedTillReply 5000 1 (CmdMessenger (map Some ''2;1;'') [0, 0, 0, 0, 0]))
     = Inr True"
  by code_simp

text \<open>
  C3, amended. (1) The wait returns \<open>false\<close> only when the clock has reached the
  timeout: the readings it took, \<open>start\<close> first, end with one that is \<open>timeout\<close> or
  more after \<open>start\<close>. (2) A poll whose byte completes a frame answers \<open>true\<close> exactly
  when the id that \<open>readInt16Arg\<close> returns equals the expected id and \<open>ArgOk\<close> is
  set, and \<open>false\<close> otherwise. (3) After any number of polls that answered \<open>false\<close>
  within the window, whatever frames they completed, the wait takes a further clock
  reading and polls again, and (4) when that poll answers \<open>true\<close> the wait returns
  \<open>true\<close>.
\<close>

theorem blockedTillReply_outcome:
  "(blockedTillReply timeout ackCmdId s = Inr (False, s')
      \<longrightarrow> (\<exists>start pre. clock s = (start # pre) @ clock s'
             \<and> timeout \<le> last (start # pre) - start))
   \<and> (comms_available p = (n, pa) \<and> n \<noteq> 0 \<and> comms_read pa = (c, p2)
        \<and> processLine c p2 = Inr (kEndOfMessage, p3) \<and> readInt16Arg p3 = Inr (cid, p4)
      \<longrightarrow> checkForAck ackCmdId p = Inr (uint ackCmdId = sint cid \<and> ArgOk p4, p4))
   \<and> (millis s = Inr (start, s0) \<and> 0 < timeout \<and> poll_run ackCmdId k s0 = Inr (trs, s1)
        \<and> (\<forall>(t, r) \<in> set trs. \<not> r \<and> t - start < timeout)
        \<and> blockedTillReply timeout ackCmdId s = Inr (res, s')
      \<longrightarrow> (\<exists>t1 s2 r1 s3. millis s1 = Inr (t1, s2) \<and> checkForAck ackCmdId s2 = Inr (r1, s3)))
   \<and> (millis s = Inr (start, s0) \<and> 0 < timeout \<and> poll_run ackCmdId k s0 = Inr (trs, s1)
        \<and> (\<forall>(t, r) \<in> set trs. \<not> r \<and> t - start < timeout)
        \<and> millis s1 = Inr (t1, s2) \<and> checkForAck ackCmdId s2 = Inr (True, s3)
      \<longrightarrow> blockedTillReply timeout ackCmdId s = Inr (True, s3))"
proof (intro conjI impI)
  assume a: "blockedTillReply timeout ackCmdId s = Inr (False, s')"
  then obtain start s1 where m: "millis s = Inr (start, s1)"
    and l: "blocked_loop start timeout ackCmdId start False s1 = Inr (False, s')"
    by (auto simp: blockedTillReply_def bind_r_eq_Inr)
  from blocked_loop_result [OF l] obtain pre where p: "clock s1 = pre @ clock s'"
    and q: "\<not> last (start # pre) - start < timeout" by blast
  from millis_Inr [OF m] p have "clock s = (start # pre) @ clock s'" by simp
  with q show "\<exists>start pre. clock s = (start # pre) @ clock s'
             \<and> timeout \<le> last (start # pre) - start"
    by (auto simp: not_less)
next
  assume "comms_available p = (n, pa) \<and> n \<noteq> 0 \<and> comms_read pa = (c, p2)
        \<and> processLine c p2 = Inr (kEndOfMessage, p3) \<and> readInt16Arg p3 = Inr (cid, p4)"
  then have "comms_available p = (n, pa)" "n \<noteq> 0" "comms_read pa = (c, p2)"
    "processLine c p2 = Inr (kEndOfMessage, p3)" "readInt16Arg p3 = Inr (cid, p4)"
    by simp_all
  then show "checkForAck ackCmdId p = Inr (uint ackCmdId = sint cid \<and> ArgOk p4, p4)"
    by (rule checkForAck_frame)
next
  assume h: "millis s = Inr (start, s0) \<and> 0 < timeout \<and> poll_run ackCmdId k s0 = Inr (trs, s1)
        \<and> (\<forall>(t, r) \<in> set trs. \<not> r \<and> t - start < timeout)
        \<and> blockedTillReply timeout ackCmdId s = Inr (res, s')"
  then have m: "millis s = Inr (start, s0)" and w: "start - start < timeout"
    and p: "poll_run ackCmdId k s0 = Inr (trs, s1)"
    and f: "\<forall>(t, r) \<in> set trs. \<not> r \<and> t - start < timeout"
    and b: "blockedTillReply timeout ackCmdId s = Inr (res, s')"
    by simp_all
  from b m have "blocked_loop start timeout ackCmdId start False s0 = Inr (res, s')"
    by (simp add: blockedTillReply_def)
  with blocked_loop_polls [OF p f w]
  have l: "blocked_loop start timeout ackCmdId (last (start # map fst trs)) False s1 = Inr (res, s')"
    by simp
  from f w have "last (start # map fst trs) - start < timeout"
    by (rule last_in_window)
  with l show "\<exists>t1 s2 r1 s3. millis s1 = Inr (t1, s2) \<and> checkForAck ackCmdId s2 = Inr (r1, s3)"
    by (subst (asm) blocked_loop.simps) (auto simp: bind_r_eq_Inr)
next
  assume h: "millis s = Inr (start, s0) \<and> 0 < timeout \<and> poll_run ackCmdId k s0 = Inr (trs, s1)
        \<and> (\<forall>(t, r) \<in> set trs. \<not> r \<and> t - start < timeout)
        \<and> millis s1 = Inr (t1, s2) \<and> checkForAck ackCmdId s2 = Inr (True, s3)"
  then have m: "millis s = Inr (start, s0)" and w: "start - start < timeout"
    and p: "poll_run ackCmdId k s0 = Inr (trs, s1)"
    and f: "\<forall>(t, r) \<in> set trs. \<not> r \<and> t - start < timeout"
    and m1: "millis s1 = Inr (t1, s2)" and c1: "checkForAck ackCmdId s2 = Inr (True, s3)"
    by simp_all
  from f w have i: "last (start # map fst trs) - start < timeout"
    by (rule last_in_window)
  have "blockedTillReply timeout ackCmdId s = blocked_loop start timeout ackCmdId start False s0"
    using m by (simp add: blockedTillReply_def)
  also have "\<dots> = blocked_loop start timeout ackCmdId (last (start # map fst trs)) False s1"
    by (rule blocked_loop_polls [OF p f w])
  also have "\<dots> = blocked_loop start timeout ackCmdId t1 True s3"
    by (rule blocked_loop_step [OF i m1 c1])
  also have "\<dots> = Inr (True, s3)" by (rule blocked_loop_true)
  finally show "blockedTillReply timeout ackCmdId s = Inr (True, s3)" .
qed

theorem blockedTillReply_outcome_witness:
  "\<exists>s' p n pa c p2 p3 cid p4 s0 trs s1 t1 s2 s3.
     blockedTillReply 3 1 (CmdMessenger (map Some ''2;'') [0, 1, 2, 3, 4]) = Inr (False, s')
     \<and> (\<exists>start pre. clock (CmdMessenger (map Some ''2;'') [0, 1, 2, 3, 4]) = (start # pre) @ clock s'
            \<and> 3 \<le> last (start # pre) - start)
     \<and> checkForAck 1 (CmdMessenger (map Some ''2;1;'') [0, 0, 0, 0, 0]) = Inr (False, p)
     \<and> comms_available p = (n, pa) \<and> n \<noteq> 0 \<and> comms_read pa = (c, p2)
     \<and> processLine c p2 = Inr (kEndOfMessage, p3) \<and> readInt16Arg p3 = Inr (cid, p4)
     \<and> cid = 2 \<and> checkForAck 1 p = Inr (False, p4)
     \<and> millis (CmdMessenger (map Some ''2;1;'') [0, 0, 0, 0, 0]) = Inr (0, s0)
     \<and> poll_run 1 3 s0 = Inr (trs, s1) \<and> trs = [(0, False), (0, False), (0, False)]
     \<and> millis s1 = Inr (t1, s2) \<and> checkForAck 1 s2 = Inr (True, s3)
     \<and> blockedTillReply 5000 1 (CmdMessenger (map Some ''2;1;'') [0, 0, 0, 0, 0]) = Inr (True, s3)"
proof -
  let ?A = "CmdMessenger (map Some ''2;'') [0, 1, 2, 3, 4]"
  let ?B = "CmdMessenger (map Some ''2;1;'') [0, 0, 0, 0, 0]"
  have "map_sum id fst (blockedTillReply 3 1 ?A) = Inr False"
    by code_simp
  then obtain s' where e1: "blockedTillReply 3 1 ?A = Inr (False, s')"
    by (cases "blockedTillReply 3 1 ?A") auto
  note part1 = blockedTillReply_outcome [where timeout = 3 and ackCmdId = 1 and s = ?A and s' = s',
      THEN conjunct1, THEN mp, OF e1]
  have "bind_r (checkForAck 1 ?B) (\<lambda>(r, p).
          bind_r (processLine (fst (comms_read (snd (comms_available p))))
                    (snd (comms_read (snd (comms_available p))))) (\<lambda>(st, p3).
            bind_r (readInt16Arg p3) (\<lambda>(cid, p4).
              Inr (r, fst (comms_available p), fst (comms_read (snd (comms_available p))), st, cid))))
        = Inr (False, 3, CHR '';'', kEndOfMessage, 2)"
    by code_simp
  then obtain p p3 cid p4 where e2a: "checkForAck 1 ?B = Inr (False, p)"
    "fst (comms_available p) = 3"
    "processLine (fst (comms_read (snd (comms_available p))))
       (snd (comms_read (snd (comms_available p)))) = Inr (kEndOfMessage, p3)"
    "readInt16Arg p3 = Inr (cid, p4)" "cid = 2"
    by (auto simp: bind_r_eq_Inr)
  define n where "n = fst (comms_available p)"
  define pa where "pa = snd (comms_available p)"
  define c where "c = fst (comms_read pa)"
  define p2 where "p2 = snd (comms_read pa)"
  from e2a have e2: "checkForAck 1 ?B = Inr (False, p)"
    "comms_available p = (n, pa)" "n \<noteq> 0" "comms_read pa = (c, p2)"
    "processLine c p2 = Inr (kEndOfMessage, p3)" "readInt16Arg p3 = Inr (cid, p4)" "cid = 2"
    by (auto simp: n_def pa_def c_def p2_def prod_eq_iff)
  from e2 have h2: "comms_available p = (n, pa) \<and> n \<noteq> 0 \<and> comms_read pa = (c, p2)
        \<and> processLine c p2 = Inr (kEndOfMessage, p3) \<and> readInt16Arg p3 = Inr (cid, p4)"
    by simp
  have part2: "checkForAck 1 p = Inr (False, p4)"
    using blockedTillReply_outcome [where ackCmdId = 1 and p = p and n = n and pa = pa and c = c
        and ?p2.0 = p2 and ?p3.0 = p3 and cid = cid and ?p4.0 = p4,
        THEN conjunct2, THEN conjunct1, THEN mp, OF h2] \<open>cid = 2\<close>
    by simp
  have "bind_r (millis ?B) (\<lambda>(t0, s0).
          bind_r (poll_run 1 3 s0) (\<lambda>(trs, s1).
            bind_r (millis s1) (\<lambda>(t1, s2).
              bind_r (checkForAck 1 s2) (\<lambda>(r, s3). Inr (t0, trs, t1, r)))))
        = Inr (0, [(0, False), (0, False), (0, False)], 0, True)"
    by code_simp
  then obtain s0 trs s1 t1 s2 s3 where e3: "millis ?B = Inr (0, s0)"
    "poll_run 1 3 s0 = Inr (trs, s1)" "trs = [(0, False), (0, False), (0, False)]"
    "millis s1 = Inr (t1, s2)" "checkForAck 1 s2 = Inr (True, s3)"
    by (auto simp: bind_r_eq_Inr split: prod.splits)
  from e3 have h4: "millis ?B = Inr (0, s0) \<and> 0 < (5000 :: 32 word) \<and> poll_run 1 3 s0 = Inr (trs, s1)
        \<and> (\<forall>(t, r) \<in> set trs. \<not> r \<and> t - 0 < (5000 :: 32 word))
        \<and> millis s1 = Inr (t1, s2) \<and> checkForAck 1 s2 = Inr (True, s3)"
    by simp
  note part4 = blockedTillReply_outcome [where timeout = 5000 and ackCmdId = 1 and s = ?B
      and start = 0 and ?s0.0 = s0 and k = 3 and trs = trs and ?s1.0 = s1 and ?t1.0 = t1
      and ?s2.0 = s2 and ?s3.0 = s3,
      THEN conjunct2, THEN conjunct2, THEN conjunct2, THEN mp, OF h4]
  from e1 part1 e2 part2 e3 part4 show ?thesis by blast
qed

section \<open>The frame buffer\<close>










lemma stored_cfg [simp]:
  "escape_character (stored c s) = escape_character s"
  "command_separator (stored c s) = command_separator s"
  "CmdlastChar (stored c s) = snd (isEscaped s c (escape_character s) (CmdlastChar s))"
  "commandBuffer (stored c s) = (commandBuffer s)[unat (bufferIndex s) := c]"
  by (auto simp: stored_def isEscaped_def Let_def)



lemma overflowed_cfg [simp]:
  "escape_character (overflowed c s) = escape_character s"
  "command_separator (overflowed c s) = command_separator s"
  "CmdlastChar (overflowed c s) = snd (isEscaped s c (escape_character s) (CmdlastChar s))"
  by (simp_all add: overflowed_def reset_def)








lemma ended_fields [simp]:
  "bufferIndex (ended s) = 0"
  "command_separator (ended s) = command_separator s"
  "escape_character (ended s) = escape_character s"
  "commandBuffer (ended s) = (commandBuffer s)[unat (bufferIndex s) := NUL]"
  by (simp_all add: ended_def)






section \<open>What the argument layer leaves of the frame reader\<close>


lemma reader_fields_upd [simp]:
  "reader_fields (s\<lparr>ArglastChar := a\<rparr>) = reader_fields s"
  "reader_fields (s\<lparr>lastp := l\<rparr>) = reader_fields s"
  "reader_fields (s\<lparr>current := p\<rparr>) = reader_fields s"
  "reader_fields (s\<lparr>dumped := d\<rparr>) = reader_fields s"
  "reader_fields (s\<lparr>ArgOk := k\<rparr>) = reader_fields s"
  "reader_fields (s\<lparr>messageState := m\<rparr>) = reader_fields s"
  "reader_fields (s\<lparr>lastCommandId := i\<rparr>) = reader_fields s"
  "reader_fields (s\<lparr>dispatched := ds\<rparr>) = reader_fields s"
  by (simp_all add: reader_fields_def)
















end
